theory Spec2Isabelle
  imports Main "HOL-Library.Word" "HOL-Library.Sublist"
begin

section \<open>pkg/one/language.go: languages, grammars and the parse pipeline\<close>

subsection \<open>Data of the tree-sitter binding\<close>

text \<open>
  A syntax-tree node of the tree-sitter binding (\<^verbatim>\<open>sitter.Node\<close>). The package
  reads a node through \<^verbatim>\<open>node.Type()\<close> only; the children are what a traversal
  walks.
\<close>

datatype Node = SyntaxNode (Type: string) (Children: "Node list")

text \<open>
  A grammar handle (\<^verbatim>\<open>*sitter.Language\<close>, obtained from \<^verbatim>\<open>GetLanguage()\<close> of one of
  the three imported grammar packages). A handle is identified by the package it
  comes from.
\<close>

datatype sitter_Language = treeSitterPy | treeSitterTs | treeSitterTsx

text \<open>\<^verbatim>\<open>sitter.Point\<close> and \<^verbatim>\<open>sitter.Range\<close>: rows, columns and byte offsets are uint32.\<close>

record Point =
  Row :: "32 word"
  Column :: "32 word"

record Range =
  StartPoint :: Point
  EndPoint :: Point
  StartByte :: "32 word"
  EndByte :: "32 word"

subsection \<open>Language tags\<close>

text \<open>
  \<^verbatim>\<open>type Language int\<close> with the constants numbered by \<^verbatim>\<open>iota\<close>. A value of the
  type is any integer, so \<^verbatim>\<open>Grammar\<close> has a default branch.
\<close>

type_synonym Language = int

definition LangUnknown :: Language where
  "LangUnknown = 0"

definition LangPy :: Language where
  "LangPy = 1"

definition LangJs :: Language where
  "LangJs = 2"

definition LangTs :: Language where
  "LangTs = 3"

definition LangTsx :: Language where
  "LangTsx = 4"

text \<open>
  \<^verbatim>\<open>func (lang Language) Grammar() *sitter.Language\<close>: the switch of the source, case
  by case; \<open>None\<close> is the nil pointer of the default branch.
\<close>

definition Grammar :: "Language \<Rightarrow> sitter_Language option" where
  "Grammar lang =
     (if lang = LangPy then Some treeSitterPy
      else if lang = LangJs then Some treeSitterTsx
      else if lang = LangTs then Some treeSitterTs
      else if lang = LangTsx then Some treeSitterTsx
      else None)"

subsection \<open>File extensions\<close>

text \<open>
  \<^verbatim>\<open>filepath.Ext\<close> of the Go standard library, on a system whose path separator is
  the slash:
  \<^verbatim>\<open>
  for i := len(path) - 1; i >= 0 && !os.IsPathSeparator(path[i]); i-- {
      if path[i] == '.' { return path[i:] }
  }
  return ""
  \<close>
  A Go string is a sequence of bytes, as a HOL \<open>string\<close> is. The loop counter of
  \<open>ExtLoop\<close> is \<open>i + 1\<close>, so that it stops at \<open>0\<close>.
\<close>

definition IsPathSeparator :: "char \<Rightarrow> bool" where
  "IsPathSeparator c = (c = CHR ''/'')"

fun ExtLoop :: "string \<Rightarrow> nat \<Rightarrow> string" where
  "ExtLoop path 0 = []"
| "ExtLoop path (Suc i) =
     (if IsPathSeparator (path ! i) then []
      else if path ! i = CHR ''.'' then drop i path
      else ExtLoop path i)"

definition Ext :: "string \<Rightarrow> string" where
  "Ext path = ExtLoop path (length path)"

text \<open>\<^verbatim>\<open>func LanguageFromFilePath(path string) Language\<close>.\<close>

definition LanguageFromFilePath :: "string \<Rightarrow> Language" where
  "LanguageFromFilePath path =
     (let ext = Ext path in
      if ext = ''.py'' then LangPy
      else if ext = ''.js'' \<or> ext = ''.jsx'' then LangJs
      else if ext = ''.ts'' then LangTs
      else if ext = ''.tsx'' then LangTsx
      else LangUnknown)"

subsection \<open>Parse results and errors\<close>

text \<open>
  \<^verbatim>\<open>type ParseResult struct\<close>. The type \<^verbatim>\<open>ScopeTree\<close> is declared in another file of
  the package; it is the type parameter \<open>'s\<close>, and \<open>None\<close> is the nil scope tree.
\<close>

record 's ParseResult =
  Ast :: Node
  Source :: "8 word list"
  FilePath :: string
  TsLanguage :: "sitter_Language option"
  Language :: Language
  ScopeTree :: "'s option"

text \<open>
  The errors of the pipeline: \<open>Errorf msg\<close> is the value of \<^verbatim>\<open>fmt.Errorf\<close> with the
  formatted message \<open>msg\<close>; \<open>ReadFileError e\<close> is the error \<open>e\<close> that
  \<^verbatim>\<open>os.ReadFile\<close> returned, passed on as it is.
\<close>

datatype error = Errorf string | ReadFileError string

text \<open>
  The file system that \<^verbatim>\<open>os.ReadFile\<close> reads: for each path either the error of the
  read or the bytes of the file. \<open>readLog\<close> is a ghost field: the paths read so far,
  in order, so that "no file was read" can be stated.
\<close>

record FileSystem =
  contents :: "string \<Rightarrow> string + 8 word list"
  readLog :: "string list"

definition ReadFile :: "string \<Rightarrow> FileSystem \<Rightarrow> (string + 8 word list) \<times> FileSystem" where
  "ReadFile name fs = (contents fs name, fs\<lparr>readLog := readLog fs @ [name]\<rparr>)"

text \<open>
  \<^verbatim>\<open>func Parse(filePath, source, language, grammar)\<close>. The two collaborators are
  parameters: \<open>ParseCtx source grammar\<close> is \<^verbatim>\<open>sitter.ParseCtx\<close> under the background
  context, \<open>None\<close> when it returns an error (\<open>Parse\<close> drops the error's value);
  \<open>MakeScopeTree\<close> is the scope resolver, defined in another file of the package.
\<close>

definition Parse ::
  "(8 word list \<Rightarrow> sitter_Language option \<Rightarrow> Node option) \<Rightarrow>
   (Language \<Rightarrow> Node \<Rightarrow> 8 word list \<Rightarrow> 's option) \<Rightarrow>
   string \<Rightarrow> 8 word list \<Rightarrow> Language \<Rightarrow> sitter_Language option \<Rightarrow> error + 's ParseResult" where
  "Parse ParseCtx MakeScopeTree filePath source language grammar =
     (case ParseCtx source grammar of
        None \<Rightarrow> Inl (Errorf (''failed to parse '' @ filePath))
      | Some ast \<Rightarrow>
          (let scopeTree = MakeScopeTree language ast source
           in Inr \<lparr>Ast = ast, Source = source, FilePath = filePath,
                    TsLanguage = grammar, Language = language, ScopeTree = scopeTree\<rparr>))"

text \<open>\<^verbatim>\<open>func ParseFile(filePath string)\<close>, threading the file system.\<close>

definition ParseFile ::
  "(8 word list \<Rightarrow> sitter_Language option \<Rightarrow> Node option) \<Rightarrow>
   (Language \<Rightarrow> Node \<Rightarrow> 8 word list \<Rightarrow> 's option) \<Rightarrow>
   string \<Rightarrow> FileSystem \<Rightarrow> (error + 's ParseResult) \<times> FileSystem" where
  "ParseFile ParseCtx MakeScopeTree filePath fs =
     (let lang = LanguageFromFilePath filePath;
          grammar = Grammar lang
      in if grammar = None
         then (Inl (Errorf (''unsupported file type: '' @ filePath)), fs)
         else (case ReadFile filePath fs of
                 (Inl err, fs') \<Rightarrow> (Inl (ReadFileError err), fs')
               | (Inr source, fs') \<Rightarrow>
                   (Parse ParseCtx MakeScopeTree filePath source lang grammar, fs')))"

section \<open>pkg/one/analyze.go: the rule registry and dispatcher\<close>

subsection \<open>Issues, rules and callbacks\<close>

text \<open>\<^verbatim>\<open>type Issue struct\<close>; the optional node is \<open>None\<close> when the pointer is nil.\<close>

record Issue =
  Message :: string
  Range :: Range
  Node :: "Node option"

text \<open>
  Modelled from the spec: the \<^verbatim>\<open>Rule\<close> interface and the callback type \<^verbatim>\<open>VisitFn\<close> are
  declared in another file of the package. The analyzer calls a rule's methods
  \<^verbatim>\<open>NodeType()\<close>, \<^verbatim>\<open>OnEnter()\<close> and \<^verbatim>\<open>OnLeave()\<close>, the last two returning a pointer
  to a callback that may be nil, and calls a callback as
  \<^verbatim>\<open>(*visitFn)(rule, ana, node)\<close>. Following section 9 of the spec, a rule is the
  capability record of its declared node type and its two optional callbacks; the
  three methods are getters of fields that do not change once the rule is
  registered (section 5). \<open>'f\<close> is the type of callback pointers.
\<close>

record 'f Rule =
  NodeType :: string
  OnEnter :: "'f option"
  OnLeave :: "'f option"

text \<open>
  Modelled from the spec: what a callback does. A callback is code outside the
  package: of the analyzer it is handed it reads the exported fields (\<^verbatim>\<open>Language\<close>,
  \<^verbatim>\<open>ParseResult\<close>) and it acts on it by calling the methods \<^verbatim>\<open>Report\<close> and
  \<^verbatim>\<open>AddRule\<close> (sections 4.3 and 9). The behaviour of the callbacks is the parameter
  \<open>visit\<close> of the dispatcher: \<open>visit visitFn rule lang file node\<close> is the list of
  method calls that the callback behind the pointer \<open>visitFn\<close> makes on the
  analyzer, in order, when it is called with \<open>rule\<close>, an analyzer whose exported
  fields are \<open>lang\<close> and \<open>file\<close>, and \<open>node\<close>. A callback that calls
  \<^verbatim>\<open>Analyze\<close>, \<^verbatim>\<open>OnEnterNode\<close> or \<^verbatim>\<open>OnLeaveNode\<close> itself, or that assigns to the
  exported fields, is outside the model. Here a callback is a function of its
  arguments; callbacks that keep state of their own between calls have a
  section below.
\<close>

datatype 'f MethodCall = CallReport Issue | CallAddRule "'f Rule"

type_synonym ('f, 's) Callbacks =
  "'f \<Rightarrow> 'f Rule \<Rightarrow> Language \<Rightarrow> 's ParseResult \<Rightarrow> Node \<Rightarrow> 'f MethodCall list"

text \<open>
  One call of a callback by the dispatcher: the phase, the callback pointer, and the
  rule and node it was called with.
\<close>

datatype Phase = Entering | Leaving

datatype 'f Invocation =
  Invocation (phase: Phase) (callee: 'f) (ruleArg: "'f Rule") (nodeArg: Node)

subsection \<open>The analyzer\<close>

text \<open>
  \<^verbatim>\<open>type Analyzer struct\<close>. The two indices are Go maps from node types to slices of
  rules. \<open>invoked\<close> is a ghost field that the source does not have: the calls of
  callbacks made so far, in order. Only \<open>invoke\<close> below writes it and nothing reads
  it.
\<close>

record ('f, 's) Analyzer =
  Language :: Language
  ParseResult :: "'s ParseResult"
  rules :: "'f Rule list"
  entryRulesForNode :: "string \<rightharpoonup> 'f Rule list"
  exitRulesForNode :: "string \<rightharpoonup> 'f Rule list"
  issuesRaised :: "Issue list"
  invoked :: "'f Invocation list"

text \<open>
  Reading a Go map of slices at a key: the stored slice, or the nil (empty) slice
  when the key is missing.
\<close>

definition bucket :: "(string \<rightharpoonup> 'a list) \<Rightarrow> string \<Rightarrow> 'a list" where
  "bucket m k = (case m k of None \<Rightarrow> [] | Some rs \<Rightarrow> rs)"

text \<open>\<^verbatim>\<open>func (ana *Analyzer) Report(issue *Issue)\<close>.\<close>

definition Report :: "('f, 's) Analyzer \<Rightarrow> Issue \<Rightarrow> ('f, 's) Analyzer" where
  "Report ana issue = ana\<lparr>issuesRaised := issuesRaised ana @ [issue]\<rparr>"

text \<open>\<^verbatim>\<open>func (ana *Analyzer) AddRule(rule Rule)\<close>, statement by statement.\<close>

definition AddRule :: "('f, 's) Analyzer \<Rightarrow> 'f Rule \<Rightarrow> ('f, 's) Analyzer" where
  "AddRule ana rule =
     (let ana1 = ana\<lparr>rules := rules ana @ [rule]\<rparr>;
          typ = NodeType rule;
          ana2 = (if OnEnter rule \<noteq> None
                  then ana1\<lparr>entryRulesForNode :=
                         (entryRulesForNode ana1)(typ \<mapsto> bucket (entryRulesForNode ana1) typ @ [rule])\<rparr>
                  else ana1);
          ana3 = (if OnLeave rule \<noteq> None
                  then ana2\<lparr>exitRulesForNode :=
                         (exitRulesForNode ana2)(typ \<mapsto> bucket (exitRulesForNode ana2) typ @ [rule])\<rparr>
                  else ana2)
      in ana3)"

text \<open>
  \<^verbatim>\<open>func NewAnalyzer(file *ParseResult, rules []Rule) *Analyzer\<close>: the struct literal
  (fields it does not name are nil), then \<^verbatim>\<open>AddRule\<close> for each rule in order. The
  parse result is a value here: the source dereferences \<^verbatim>\<open>file\<close> at once.
\<close>

definition NewAnalyzer :: "'s ParseResult \<Rightarrow> 'f Rule list \<Rightarrow> ('f, 's) Analyzer" where
  "NewAnalyzer file rs =
     foldl AddRule
       \<lparr>Language = ParseResult.Language file, ParseResult = file, rules = [],
        entryRulesForNode = Map.empty, exitRulesForNode = Map.empty,
        issuesRaised = [], invoked = []\<rparr>
       rs"

subsection \<open>Dispatch\<close>

text \<open>A method call that a callback makes on the analyzer.\<close>

fun perform :: "'f MethodCall \<Rightarrow> ('f, 's) Analyzer \<Rightarrow> ('f, 's) Analyzer" where
  "perform (CallReport issue) ana = Report ana issue"
| "perform (CallAddRule rule) ana = AddRule ana rule"

text \<open>
  \<^verbatim>\<open>(*visitFn)(rule, ana, node)\<close>: the call is logged, then the callback's method
  calls are performed on the analyzer in order.
\<close>

definition invoke ::
  "('f, 's) Callbacks \<Rightarrow> Phase \<Rightarrow> 'f \<Rightarrow> 'f Rule \<Rightarrow> ('f, 's) Analyzer \<Rightarrow> Node \<Rightarrow> ('f, 's) Analyzer" where
  "invoke visit ph visitFn rule ana node =
     fold perform (visit visitFn rule (Analyzer.Language ana) (ParseResult ana) node)
       (ana\<lparr>invoked := invoked ana @ [Invocation ph visitFn rule node]\<rparr>)"

text \<open>
  The loop of \<^verbatim>\<open>OnEnterNode\<close> over the slice \<^verbatim>\<open>rules\<close>. The slice is read from the
  index once, before the loop: a rule that a callback adds meanwhile is not in it.
\<close>

fun enterLoop ::
  "('f, 's) Callbacks \<Rightarrow> 'f Rule list \<Rightarrow> ('f, 's) Analyzer \<Rightarrow> Node \<Rightarrow> ('f, 's) Analyzer" where
  "enterLoop visit [] ana node = ana"
| "enterLoop visit (rule # rs) ana node =
     (case OnEnter rule of
        None \<Rightarrow> enterLoop visit rs ana node
      | Some visitFn \<Rightarrow> enterLoop visit rs (invoke visit Entering visitFn rule ana node) node)"

text \<open>\<^verbatim>\<open>func (ana *Analyzer) OnEnterNode(node *sitter.Node) bool\<close>.\<close>

definition OnEnterNode ::
  "('f, 's) Callbacks \<Rightarrow> ('f, 's) Analyzer \<Rightarrow> Node \<Rightarrow> ('f, 's) Analyzer \<times> bool" where
  "OnEnterNode visit ana node =
     (let nodeType = Type node;
          rs = bucket (entryRulesForNode ana) nodeType
      in (enterLoop visit rs ana node, True))"

text \<open>The loop of \<^verbatim>\<open>OnLeaveNode\<close>.\<close>

fun leaveLoop ::
  "('f, 's) Callbacks \<Rightarrow> 'f Rule list \<Rightarrow> ('f, 's) Analyzer \<Rightarrow> Node \<Rightarrow> ('f, 's) Analyzer" where
  "leaveLoop visit [] ana node = ana"
| "leaveLoop visit (rule # rs) ana node =
     (case OnLeave rule of
        None \<Rightarrow> leaveLoop visit rs ana node
      | Some visitFn \<Rightarrow> leaveLoop visit rs (invoke visit Leaving visitFn rule ana node) node)"

text \<open>\<^verbatim>\<open>func (ana *Analyzer) OnLeaveNode(node *sitter.Node)\<close>.\<close>

definition OnLeaveNode ::
  "('f, 's) Callbacks \<Rightarrow> ('f, 's) Analyzer \<Rightarrow> Node \<Rightarrow> ('f, 's) Analyzer" where
  "OnLeaveNode visit ana node =
     (let nodeType = Type node;
          rs = bucket (exitRulesForNode ana) nodeType
      in leaveLoop visit rs ana node)"

subsection \<open>Traversal\<close>

text \<open>
  Modelled from the spec: \<^verbatim>\<open>WalkTree\<close>, the traversal engine, is defined in another
  file of the package. By section 4.4 it calls "on enter node" once per node, before
  the node's children, and descends into the children when the call returns true;
  it visits the children left to right; it calls "on leave node" once per node,
  after the subtrees of all its children.
\<close>

fun WalkTree :: "('f, 's) Callbacks \<Rightarrow> Node \<Rightarrow> ('f, 's) Analyzer \<Rightarrow> ('f, 's) Analyzer"
  and WalkNodes :: "('f, 's) Callbacks \<Rightarrow> Node list \<Rightarrow> ('f, 's) Analyzer \<Rightarrow> ('f, 's) Analyzer" where
  "WalkTree visit (SyntaxNode t cs) ana =
     (case OnEnterNode visit ana (SyntaxNode t cs) of
        (ana1, goInside) \<Rightarrow>
          OnLeaveNode visit (if goInside then WalkNodes visit cs ana1 else ana1) (SyntaxNode t cs))"
| "WalkNodes visit [] ana = ana"
| "WalkNodes visit (c # cs) ana = WalkNodes visit cs (WalkTree visit c ana)"

text \<open>
  \<^verbatim>\<open>func (ana *Analyzer) Analyze() []*Issue\<close>: the issues returned, and the analyzer
  as the traversal leaves it.
\<close>

definition Analyze :: "('f, 's) Callbacks \<Rightarrow> ('f, 's) Analyzer \<Rightarrow> Issue list \<times> ('f, 's) Analyzer" where
  "Analyze visit ana =
     (let ana' = WalkTree visit (Ast (ParseResult ana)) ana
      in (issuesRaised ana', ana'))"

text \<open>\<^verbatim>\<open>func FromFile(filePath string, baseRules []Rule) (*Analyzer, error)\<close>.\<close>

definition FromFile ::
  "(8 word list \<Rightarrow> sitter_Language option \<Rightarrow> Node option) \<Rightarrow>
   (Language \<Rightarrow> Node \<Rightarrow> 8 word list \<Rightarrow> 's option) \<Rightarrow>
   string \<Rightarrow> 'f Rule list \<Rightarrow> FileSystem \<Rightarrow> (error + ('f, 's) Analyzer) \<times> FileSystem" where
  "FromFile ParseCtx MakeScopeTree filePath baseRules fs =
     (case ParseFile ParseCtx MakeScopeTree filePath fs of
        (Inl err, fs') \<Rightarrow> (Inl err, fs')
      | (Inr res, fs') \<Rightarrow> (Inr (NewAnalyzer res baseRules), fs'))"

section \<open>analyze.go with callbacks that keep state\<close>











section \<open>Notions that the properties are stated with\<close>

text \<open>
  A use of an analyzer through its methods: the host adds a rule or reports an
  issue, or a traversal engine calls one of the two visitor methods. Any history
  of an analyzer after its construction is a list of such uses.
\<close>

datatype 'f Use =
  UseAddRule "'f Rule" | UseReport Issue | UseOnEnterNode Node | UseOnLeaveNode Node

fun use :: "('f, 's) Callbacks \<Rightarrow> 'f Use \<Rightarrow> ('f, 's) Analyzer \<Rightarrow> ('f, 's) Analyzer" where
  "use visit (UseAddRule rule) ana = AddRule ana rule"
| "use visit (UseReport issue) ana = Report ana issue"
| "use visit (UseOnEnterNode node) ana = fst (OnEnterNode visit ana node)"
| "use visit (UseOnLeaveNode node) ana = OnLeaveNode visit ana node"

text \<open>The visitor calls of one walk of a tree, in order.\<close>

fun walkUses :: "Node \<Rightarrow> 'f Use list"
  and walkUsesOfNodes :: "Node list \<Rightarrow> 'f Use list" where
  "walkUses (SyntaxNode t cs) =
     UseOnEnterNode (SyntaxNode t cs) # walkUsesOfNodes cs @ [UseOnLeaveNode (SyntaxNode t cs)]"
| "walkUsesOfNodes [] = []"
| "walkUsesOfNodes (c # cs) = walkUses c @ walkUsesOfNodes cs"

text \<open>The calls of callbacks made between an earlier state and a later one.\<close>

definition invokedSince :: "('f, 's) Analyzer \<Rightarrow> ('f, 's) Analyzer \<Rightarrow> 'f Invocation list" where
  "invokedSince ana ana' = drop (length (invoked ana)) (invoked ana')"

text \<open>The issues that one call of a callback reports, in the order of its calls of \<^verbatim>\<open>Report\<close>.\<close>

fun reported :: "'f MethodCall \<Rightarrow> Issue list" where
  "reported (CallReport issue) = [issue]"
| "reported (CallAddRule rule) = []"

definition reportsOf ::
  "('f, 's) Callbacks \<Rightarrow> Language \<Rightarrow> 's ParseResult \<Rightarrow> 'f Invocation \<Rightarrow> Issue list" where
  "reportsOf visit lang file c =
     concat (map reported (visit (callee c) (ruleArg c) lang file (nodeArg c)))"

text \<open>
  The rules of a registration list that are interested in a node type on entry and
  on exit, in registration order.
\<close>

definition enterRules :: "string \<Rightarrow> 'f Rule list \<Rightarrow> 'f Rule list" where
  "enterRules t rs = filter (\<lambda>r. NodeType r = t \<and> OnEnter r \<noteq> None) rs"

definition leaveRules :: "string \<Rightarrow> 'f Rule list \<Rightarrow> 'f Rule list" where
  "leaveRules t rs = filter (\<lambda>r. NodeType r = t \<and> OnLeave r \<noteq> None) rs"

text \<open>
  An analyzer with a history: constructed by \<^verbatim>\<open>NewAnalyzer\<close> from a parse result and
  a list of rules, then used as the list \<open>us\<close> says.
\<close>

definition history ::
  "('f, 's) Callbacks \<Rightarrow> 's ParseResult \<Rightarrow> 'f Rule list \<Rightarrow> 'f Use list \<Rightarrow> ('f, 's) Analyzer" where
  "history visit file rs us = fold (use visit) us (NewAnalyzer file rs)"

subsection \<open>The analysis as a function of the tree and the registered rules\<close>

text \<open>
  The analysis written as section 4.3 of the spec describes it, with no index and
  no analyzer: the state is the list of the rules registered so far and the list
  of the issues raised so far. At each visit of a node, entering or leaving, the
  rules registered at that moment that declare the node's type and define the
  callback of the phase are taken in registration order; each one's callback is
  called, the issues it reports are appended and the rules it adds are
  registered. \<open>specAnalyze\<close> is compared with \<open>Analyze\<close> below.
\<close>

fun added :: "'f MethodCall \<Rightarrow> 'f Rule list" where
  "added (CallReport issue) = []"
| "added (CallAddRule rule) = [rule]"







subsection \<open>Invariants and relations of the proofs\<close>

text \<open>
  The registry invariant: each bucket of the two indices holds exactly the
  interested rules of the list \<open>rules\<close>, in the order of that list.
\<close>

definition indexed :: "('f, 's) Analyzer \<Rightarrow> bool" where
  "indexed ana =
     (\<forall>t. bucket (entryRulesForNode ana) t = enterRules t (rules ana) \<and>
          bucket (exitRulesForNode ana) t = leaveRules t (rules ana))"

text \<open>The visitor call of a visit, and the analyzer's state as the specification sees it.\<close>

fun useOf :: "Phase \<times> Node \<Rightarrow> 'f Use" where
  "useOf (Entering, node) = UseOnEnterNode node"
| "useOf (Leaving, node) = UseOnLeaveNode node"


text \<open>No key of the two indices is bound to an empty slice.\<close>

definition keyed :: "('f, 's) Analyzer \<Rightarrow> bool" where
  "keyed ana = (\<forall>t. entryRulesForNode ana t \<noteq> Some [] \<and> exitRulesForNode ana t \<noteq> Some [])"

text \<open>
  Every logged call is the call of a callback that its rule defines for the phase.
\<close>

definition callbackOf :: "'f Invocation \<Rightarrow> 'f option" where
  "callbackOf c = (case phase c of Entering \<Rightarrow> OnEnter (ruleArg c) | Leaving \<Rightarrow> OnLeave (ruleArg c))"

definition logSound :: "('f, 's) Analyzer \<Rightarrow> bool" where
  "logSound ana = (\<forall>c \<in> set (invoked ana). callbackOf c = Some (callee c))"

text \<open>
  \<open>extends visit ana ana' k\<close>: from \<open>ana\<close> to \<open>ana'\<close> the exported fields are kept,
  the calls \<open>k\<close> of callbacks are made, and the issue list grows by what these
  calls report, in order.
\<close>

definition extends ::
  "('f, 's) Callbacks \<Rightarrow> ('f, 's) Analyzer \<Rightarrow> ('f, 's) Analyzer \<Rightarrow> 'f Invocation list \<Rightarrow> bool" where
  "extends visit ana ana' k =
     (Analyzer.Language ana' = Analyzer.Language ana \<and> ParseResult ana' = ParseResult ana \<and>
      invoked ana' = invoked ana @ k \<and>
      issuesRaised ana' =
        issuesRaised ana @ concat (map (reportsOf visit (Analyzer.Language ana) (ParseResult ana)) k))"

text \<open>Two analyzers that differ in the list \<open>rules\<close> at most.\<close>

definition sameButRules :: "('f, 's) Analyzer \<Rightarrow> ('f, 's) Analyzer \<Rightarrow> bool" where
  "sameButRules a b =
     (Analyzer.Language a = Analyzer.Language b \<and> ParseResult a = ParseResult b \<and>
      entryRulesForNode a = entryRulesForNode b \<and> exitRulesForNode a = exitRulesForNode b \<and>
      issuesRaised a = issuesRaised b \<and> invoked a = invoked b)"

text \<open>The uses that are calls of the visitor methods.\<close>

fun visitorCall :: "'f Use \<Rightarrow> bool" where
  "visitorCall (UseOnEnterNode node) = True"
| "visitorCall (UseOnLeaveNode node) = True"
| "visitorCall (UseAddRule rule) = False"
| "visitorCall (UseReport issue) = False"

subsection \<open>Example data\<close>

text \<open>
  A file system with one readable file, a parser that fails on empty sources and
  without a grammar, and a scope resolver that knows Python only.
\<close>

definition exFileSystem :: FileSystem where
  "exFileSystem =
     \<lparr>contents = (\<lambda>name. if name = ''ok.py'' then Inr [0x78] else Inl ''no such file''),
      readLog = []\<rparr>"

definition exParseCtx :: "8 word list \<Rightarrow> sitter_Language option \<Rightarrow> Node option" where
  "exParseCtx source grammar =
     (if source = [] \<or> grammar = None then None
      else Some (SyntaxNode ''module'' [SyntaxNode ''identifier'' []]))"

definition exMakeScopeTree :: "Language \<Rightarrow> Node \<Rightarrow> 8 word list \<Rightarrow> nat option" where
  "exMakeScopeTree lang ast source = (if lang = LangPy then Some 0 else None)"

text \<open>
  A parse result whose tree has two nodes of type \<open>X\<close>, rules on \<open>X\<close> and \<open>Y\<close>, and
  callbacks that report the type of the node they are called with; the callback
  \<open>3\<close> also adds a rule.
\<close>

definition exTree :: Node where
  "exTree = SyntaxNode ''module'' [SyntaxNode ''X'' [], SyntaxNode ''Y'' [SyntaxNode ''X'' []]]"

definition exFile :: "nat ParseResult" where
  "exFile =
     \<lparr>Ast = exTree, Source = [0x78], FilePath = ''ok.py'', TsLanguage = Some treeSitterPy,
      ParseResult.Language = LangPy, ScopeTree = None\<rparr>"

definition exRule :: "nat Rule" where
  "exRule = \<lparr>NodeType = ''X'', OnEnter = Some 0, OnLeave = None\<rparr>"

definition exRuleBoth :: "nat Rule" where
  "exRuleBoth = \<lparr>NodeType = ''Y'', OnEnter = Some 1, OnLeave = Some 2\<rparr>"

definition exRuleInert :: "nat Rule" where
  "exRuleInert = \<lparr>NodeType = ''X'', OnEnter = None, OnLeave = None\<rparr>"

definition exRuleAdder :: "nat Rule" where
  "exRuleAdder = \<lparr>NodeType = ''Y'', OnEnter = Some 3, OnLeave = None\<rparr>"

definition exIssue :: "string \<Rightarrow> Node \<Rightarrow> Issue" where
  "exIssue msg node =
     \<lparr>Message = msg,
      Range = \<lparr>StartPoint = \<lparr>Row = 0, Column = 0\<rparr>, EndPoint = \<lparr>Row = 0, Column = 1\<rparr>,
               StartByte = 0, EndByte = 1\<rparr>,
      Node = Some node\<rparr>"

definition exVisit :: "(nat, nat) Callbacks" where
  "exVisit visitFn rule lang file node =
     (if visitFn = 3 then [CallReport (exIssue (Type node) node), CallAddRule exRule]
      else [CallReport (exIssue (Type node) node)])"



section \<open>Properties of language.go\<close>

subsection \<open>Extensions\<close>

lemma ExtLoop_suffix:
  "\<forall>c \<in> set s. c \<noteq> CHR ''.'' \<and> c \<noteq> CHR ''/'' \<Longrightarrow> k \<le> length s \<Longrightarrow>
   ExtLoop (base @ CHR ''.'' # s) (Suc (length base + k)) = CHR ''.'' # s"
proof (induction k)
  case 0
  then show ?case by (simp add: IsPathSeparator_def)
next
  case (Suc k)
  have "(base @ CHR ''.'' # s) ! (Suc (length base + k)) = s ! k"
    by (simp add: nth_append)
  moreover have "s ! k \<in> set s" using Suc.prems by simp
  ultimately show ?case using Suc by (auto simp: IsPathSeparator_def)
qed

lemma Ext_suffix:
  "\<forall>c \<in> set s. c \<noteq> CHR ''.'' \<and> c \<noteq> CHR ''/'' \<Longrightarrow> Ext (base @ CHR ''.'' # s) = CHR ''.'' # s"
  using ExtLoop_suffix [of s "length s" base] by (simp add: Ext_def)


text \<open>
  C4. The language of a path is decided by \<^verbatim>\<open>filepath.Ext\<close> of the path alone: a path
  that ends in \<^verbatim>\<open>.py\<close> is Python, in \<^verbatim>\<open>.js\<close> or \<^verbatim>\<open>.jsx\<close> JavaScript, in \<^verbatim>\<open>.ts\<close>
  TypeScript, in \<^verbatim>\<open>.tsx\<close> TypeScript with JSX, whatever stands before the
  extension; a path with any other extension is Unknown; two paths with the same
  extension have the same language; the five tags are distinct; and Unknown has no
  grammar. The function takes the path and nothing else: it reads no file system
  and calls no parser.
\<close>

theorem LanguageFromFilePath_by_extension:
  "LanguageFromFilePath (base @ ''.py'') = LangPy \<and>
   LanguageFromFilePath (base @ ''.js'') = LangJs \<and>
   LanguageFromFilePath (base @ ''.jsx'') = LangJs \<and>
   LanguageFromFilePath (base @ ''.ts'') = LangTs \<and>
   LanguageFromFilePath (base @ ''.tsx'') = LangTsx \<and>
   (Ext path \<notin> {''.py'', ''.js'', ''.jsx'', ''.ts'', ''.tsx''} \<longrightarrow>
      LanguageFromFilePath path = LangUnknown) \<and>
   (Ext p = Ext q \<longrightarrow> LanguageFromFilePath p = LanguageFromFilePath q) \<and>
   distinct [LangUnknown, LangPy, LangJs, LangTs, LangTsx] \<and>
   Grammar LangUnknown = None"
proof -
  have py: "Ext (base @ ''.py'') = ''.py''"
    using Ext_suffix [of "''py''" base] by simp
  have js: "Ext (base @ ''.js'') = ''.js''"
    using Ext_suffix [of "''js''" base] by simp
  have jsx: "Ext (base @ ''.jsx'') = ''.jsx''"
    using Ext_suffix [of "''jsx''" base] by simp
  have ts: "Ext (base @ ''.ts'') = ''.ts''"
    using Ext_suffix [of "''ts''" base] by simp
  have tsx: "Ext (base @ ''.tsx'') = ''.tsx''"
    using Ext_suffix [of "''tsx''" base] by simp
  have other: "Ext path \<notin> {''.py'', ''.js'', ''.jsx'', ''.ts'', ''.tsx''} \<longrightarrow>
      LanguageFromFilePath path = LangUnknown"
    by (simp add: LanguageFromFilePath_def)
  have same: "Ext p = Ext q \<longrightarrow> LanguageFromFilePath p = LanguageFromFilePath q"
    by (simp add: LanguageFromFilePath_def)
  have tags: "distinct [LangUnknown, LangPy, LangJs, LangTs, LangTsx]"
    by (simp add: LangUnknown_def LangPy_def LangJs_def LangTs_def LangTsx_def)
  have unk: "Grammar LangUnknown = None"
    by (simp add: Grammar_def LangUnknown_def LangPy_def LangJs_def LangTs_def LangTsx_def)
  show ?thesis
    using py js jsx ts tsx other same tags unk
    by (simp add: LanguageFromFilePath_def)
qed

theorem LanguageFromFilePath_by_extension_witness:
  "LanguageFromFilePath ''src/app.py'' = LangPy \<and>
   LanguageFromFilePath ''src/app.tsx'' = LangTsx \<and>
   Ext ''notes.txt'' \<notin> {''.py'', ''.js'', ''.jsx'', ''.ts'', ''.tsx''} \<and>
   LanguageFromFilePath ''notes.txt'' = LangUnknown \<and>
   Ext ''a/x.py'' = Ext ''b.d/y.py'' \<and>
   LanguageFromFilePath ''a/x.py'' = LanguageFromFilePath ''b.d/y.py''"
proof -
  have e1: "Ext ''notes.txt'' \<notin> {''.py'', ''.js'', ''.jsx'', ''.ts'', ''.tsx''}"
    by (simp add: Ext_def IsPathSeparator_def)
  have e2: "Ext ''a/x.py'' = Ext ''b.d/y.py''"
    by (simp add: Ext_def IsPathSeparator_def)
  show ?thesis
    using e1 e2
      LanguageFromFilePath_by_extension [of "''src/app''" "''notes.txt''" "''a/x.py''" "''b.d/y.py''"]
    by simp
qed

subsection \<open>Grammars\<close>

text \<open>
  C5. TypeScript is parsed with the grammar of the TypeScript package and TypeScript
  with JSX with the grammar of the TSX package, which are different handles;
  JavaScript is given the TSX grammar too, the same handle as TypeScript with JSX.
\<close>

theorem Grammar_handles:
  "Grammar LangTs = Some treeSitterTs \<and>
   Grammar LangTsx = Some treeSitterTsx \<and>
   Grammar LangJs = Some treeSitterTsx \<and>
   Grammar LangTs \<noteq> Grammar LangTsx \<and>
   Grammar LangJs = Grammar LangTsx"
  by (simp add: Grammar_def LangUnknown_def LangPy_def LangJs_def LangTs_def LangTsx_def)

subsection \<open>The parse pipeline\<close>

text \<open>
  C6. \<open>ParseFile\<close> resolves the language and the grammar from the path. When there
  is no grammar it fails with the unsupported-file-type error and leaves the file
  system as it was: nothing has been read. Otherwise it reads that one file; when
  the read fails it fails with the error of the read, and otherwise its result is
  that of \<open>Parse\<close> on the bytes read, with the resolved language and grammar. Both
  failures are error results: no parse result comes with them, and \<open>FromFile\<close>
  passes the error on without building an analyzer.
\<close>

theorem ParseFile_stages:
  "(Grammar (LanguageFromFilePath filePath) = None \<longrightarrow>
      ParseFile ParseCtx MakeScopeTree filePath fs =
        (Inl (Errorf (''unsupported file type: '' @ filePath)), fs)) \<and>
   (\<forall>g. Grammar (LanguageFromFilePath filePath) = Some g \<longrightarrow>
      snd (ParseFile ParseCtx MakeScopeTree filePath fs) = fs\<lparr>readLog := readLog fs @ [filePath]\<rparr> \<and>
      fst (ParseFile ParseCtx MakeScopeTree filePath fs) =
        (case contents fs filePath of
           Inl err \<Rightarrow> Inl (ReadFileError err)
         | Inr source \<Rightarrow>
             Parse ParseCtx MakeScopeTree filePath source (LanguageFromFilePath filePath) (Some g))) \<and>
   (\<forall>err. fst (ParseFile ParseCtx MakeScopeTree filePath fs) = Inl err \<longrightarrow>
      fst (FromFile ParseCtx MakeScopeTree filePath baseRules fs) = Inl err)"
  by (auto simp: ParseFile_def FromFile_def ReadFile_def Let_def split: sum.splits)

theorem ParseFile_stages_witness:
  "Grammar (LanguageFromFilePath ''file.unknownext'') = None \<and>
   ParseFile exParseCtx exMakeScopeTree ''file.unknownext'' exFileSystem =
     (Inl (Errorf ''unsupported file type: file.unknownext''), exFileSystem) \<and>
   Grammar (LanguageFromFilePath ''missing.py'') = Some treeSitterPy \<and>
   ParseFile exParseCtx exMakeScopeTree ''missing.py'' exFileSystem =
     (Inl (ReadFileError ''no such file''), exFileSystem\<lparr>readLog := [''missing.py'']\<rparr>) \<and>
   fst (FromFile exParseCtx exMakeScopeTree ''missing.py'' [exRule] exFileSystem) =
     Inl (ReadFileError ''no such file'') \<and>
   Grammar (LanguageFromFilePath ''ok.py'') = Some treeSitterPy \<and>
   ParseFile exParseCtx exMakeScopeTree ''ok.py'' exFileSystem =
     (Parse exParseCtx exMakeScopeTree ''ok.py'' [0x78] LangPy (Some treeSitterPy),
      exFileSystem\<lparr>readLog := [''ok.py'']\<rparr>)"
proof -
  have l1: "LanguageFromFilePath ''file.unknownext'' = LangUnknown"
    by (simp add: LanguageFromFilePath_def Ext_def IsPathSeparator_def)
  have l2: "LanguageFromFilePath ''missing.py'' = LangPy"
    by (simp add: LanguageFromFilePath_def Ext_def IsPathSeparator_def)
  have l3: "LanguageFromFilePath ''ok.py'' = LangPy"
    by (simp add: LanguageFromFilePath_def Ext_def IsPathSeparator_def)
  have g1: "Grammar LangUnknown = None"
    by (simp add: Grammar_def LangUnknown_def LangPy_def LangJs_def LangTs_def LangTsx_def)
  have g2: "Grammar LangPy = Some treeSitterPy"
    by (simp add: Grammar_def)
  have c1: "contents exFileSystem ''missing.py'' = Inl ''no such file''"
    by (simp add: exFileSystem_def)
  have c2: "contents exFileSystem ''ok.py'' = Inr [0x78]"
    by (simp add: exFileSystem_def)
  have r: "readLog exFileSystem = []"
    by (simp add: exFileSystem_def)
  show ?thesis
    using ParseFile_stages [of "''file.unknownext''" exParseCtx exMakeScopeTree exFileSystem "[exRule]"]
      ParseFile_stages [of "''missing.py''" exParseCtx exMakeScopeTree exFileSystem "[exRule]"]
      ParseFile_stages [of "''ok.py''" exParseCtx exMakeScopeTree exFileSystem "[exRule]"]
    by (simp add: l1 l2 l3 g1 g2 c1 c2 r prod_eq_iff)
qed

text \<open>
  C7. \<open>Parse\<close> fails exactly when the parsing engine fails on the source with the
  grammar; the error is then the parse error that carries the file path, and there
  is no parse result. When the engine returns a tree, \<open>Parse\<close> returns the parse
  result made of that tree, the source, the path, the grammar and the language it
  was given, and the scope tree that the scope resolver returns for the language,
  the tree and the source.
\<close>

theorem Parse_result:
  "(ParseCtx source grammar = None \<longrightarrow>
      Parse ParseCtx MakeScopeTree filePath source language grammar =
        Inl (Errorf (''failed to parse '' @ filePath))) \<and>
   (\<forall>ast. ParseCtx source grammar = Some ast \<longrightarrow>
      Parse ParseCtx MakeScopeTree filePath source language grammar =
        Inr \<lparr>Ast = ast, Source = source, FilePath = filePath, TsLanguage = grammar,
             ParseResult.Language = language, ScopeTree = MakeScopeTree language ast source\<rparr>) \<and>
   ((\<exists>e. Parse ParseCtx MakeScopeTree filePath source language grammar = Inl e) =
      (ParseCtx source grammar = None))"
  by (auto simp: Parse_def Let_def split: option.splits)

theorem Parse_result_witness:
  "exParseCtx [] (Some treeSitterPy) = None \<and>
   Parse exParseCtx exMakeScopeTree ''empty.py'' [] LangPy (Some treeSitterPy) =
     Inl (Errorf ''failed to parse empty.py'') \<and>
   exParseCtx [0x78] (Some treeSitterPy) = Some (SyntaxNode ''module'' [SyntaxNode ''identifier'' []]) \<and>
   Parse exParseCtx exMakeScopeTree ''ok.py'' [0x78] LangPy (Some treeSitterPy) =
     Inr \<lparr>Ast = SyntaxNode ''module'' [SyntaxNode ''identifier'' []], Source = [0x78],
          FilePath = ''ok.py'', TsLanguage = Some treeSitterPy,
          ParseResult.Language = LangPy, ScopeTree = Some 0\<rparr>"
proof -
  have p1: "exParseCtx [] (Some treeSitterPy) = None"
    by (simp add: exParseCtx_def)
  have p2: "exParseCtx [0x78] (Some treeSitterPy) =
      Some (SyntaxNode ''module'' [SyntaxNode ''identifier'' []])"
    by (simp add: exParseCtx_def)
  have m: "exMakeScopeTree LangPy (SyntaxNode ''module'' [SyntaxNode ''identifier'' []]) [0x78] = Some 0"
    by (simp add: exMakeScopeTree_def)
  show ?thesis
    using p1 p2 m
      Parse_result [of exParseCtx "[]" "Some treeSitterPy" exMakeScopeTree "''empty.py''" LangPy]
      Parse_result [of exParseCtx "[0x78]" "Some treeSitterPy" exMakeScopeTree "''ok.py''" LangPy]
    by simp
qed

section \<open>Properties of analyze.go\<close>

subsection \<open>Fields after the methods\<close>

lemma Report_fields [simp]:
  "Analyzer.Language (Report ana issue) = Analyzer.Language ana"
  "ParseResult (Report ana issue) = ParseResult ana"
  "rules (Report ana issue) = rules ana"
  "entryRulesForNode (Report ana issue) = entryRulesForNode ana"
  "exitRulesForNode (Report ana issue) = exitRulesForNode ana"
  "issuesRaised (Report ana issue) = issuesRaised ana @ [issue]"
  "invoked (Report ana issue) = invoked ana"
  by (simp_all add: Report_def)

lemma AddRule_fields [simp]:
  "Analyzer.Language (AddRule ana rule) = Analyzer.Language ana"
  "ParseResult (AddRule ana rule) = ParseResult ana"
  "rules (AddRule ana rule) = rules ana @ [rule]"
  "issuesRaised (AddRule ana rule) = issuesRaised ana"
  "invoked (AddRule ana rule) = invoked ana"
  by (simp_all add: AddRule_def Let_def)

lemma AddRule_entry:
  "entryRulesForNode (AddRule ana rule) =
     (if OnEnter rule \<noteq> None
      then (entryRulesForNode ana)(NodeType rule \<mapsto> bucket (entryRulesForNode ana) (NodeType rule) @ [rule])
      else entryRulesForNode ana)"
  by (simp add: AddRule_def Let_def)

lemma AddRule_exit:
  "exitRulesForNode (AddRule ana rule) =
     (if OnLeave rule \<noteq> None
      then (exitRulesForNode ana)(NodeType rule \<mapsto> bucket (exitRulesForNode ana) (NodeType rule) @ [rule])
      else exitRulesForNode ana)"
  by (simp add: AddRule_def Let_def)

lemma AddRule_entry_bucket:
  "bucket (entryRulesForNode (AddRule ana rule)) t =
     bucket (entryRulesForNode ana) t @ (if NodeType rule = t \<and> OnEnter rule \<noteq> None then [rule] else [])"
  by (simp add: AddRule_entry bucket_def)

lemma AddRule_exit_bucket:
  "bucket (exitRulesForNode (AddRule ana rule)) t =
     bucket (exitRulesForNode ana) t @ (if NodeType rule = t \<and> OnLeave rule \<noteq> None then [rule] else [])"
  by (simp add: AddRule_exit bucket_def)

lemma foldl_AddRule_fields:
  "Analyzer.Language (foldl AddRule ana rs) = Analyzer.Language ana \<and>
   ParseResult (foldl AddRule ana rs) = ParseResult ana \<and>
   rules (foldl AddRule ana rs) = rules ana @ rs \<and>
   issuesRaised (foldl AddRule ana rs) = issuesRaised ana \<and>
   invoked (foldl AddRule ana rs) = invoked ana"
  by (induction rs arbitrary: ana) simp_all

lemma NewAnalyzer_fields [simp]:
  "Analyzer.Language (NewAnalyzer file rs) = ParseResult.Language file"
  "ParseResult (NewAnalyzer file rs) = file"
  "rules (NewAnalyzer file rs) = rs"
  "issuesRaised (NewAnalyzer file rs) = []"
  "invoked (NewAnalyzer file rs) = []"
  by (simp_all add: NewAnalyzer_def foldl_AddRule_fields)

lemma NewAnalyzer_append: "NewAnalyzer file (rs1 @ rs2) = foldl AddRule (NewAnalyzer file rs1) rs2"
  by (simp add: NewAnalyzer_def)

lemma fold_perform_fields:
  "Analyzer.Language (fold perform cs ana) = Analyzer.Language ana \<and>
   ParseResult (fold perform cs ana) = ParseResult ana \<and>
   invoked (fold perform cs ana) = invoked ana \<and>
   issuesRaised (fold perform cs ana) = issuesRaised ana @ concat (map reported cs)"
proof (induction cs arbitrary: ana)
  case Nil
  then show ?case by simp
next
  case (Cons c cs)
  then show ?case by (cases c) simp_all
qed

subsection \<open>The registry invariant\<close>

lemma indexed_AddRule: "indexed ana \<Longrightarrow> indexed (AddRule ana rule)"
  by (simp add: indexed_def AddRule_entry_bucket AddRule_exit_bucket enterRules_def leaveRules_def)

lemma indexed_Report: "indexed ana \<Longrightarrow> indexed (Report ana issue)"
  by (simp add: indexed_def)

lemma indexed_perform: "indexed ana \<Longrightarrow> indexed (perform c ana)"
  by (cases c) (simp_all add: indexed_AddRule indexed_Report)

lemma indexed_fold_perform: "indexed ana \<Longrightarrow> indexed (fold perform cs ana)"
  by (induction cs arbitrary: ana) (simp_all add: indexed_perform)

lemma indexed_logged: "indexed ana \<Longrightarrow> indexed (ana\<lparr>invoked := l\<rparr>)"
  by (simp add: indexed_def)

lemma indexed_invoke: "indexed ana \<Longrightarrow> indexed (invoke visit ph f rule ana node)"
  by (simp add: invoke_def indexed_fold_perform indexed_logged)

lemma indexed_enterLoop: "indexed ana \<Longrightarrow> indexed (enterLoop visit rs ana node)"
  by (induction rs arbitrary: ana) (simp_all add: indexed_invoke split: option.splits)

lemma indexed_leaveLoop: "indexed ana \<Longrightarrow> indexed (leaveLoop visit rs ana node)"
  by (induction rs arbitrary: ana) (simp_all add: indexed_invoke split: option.splits)

lemma indexed_use: "indexed ana \<Longrightarrow> indexed (use visit u ana)"
  by (cases u) (simp_all add: indexed_AddRule indexed_Report OnEnterNode_def OnLeaveNode_def
      indexed_enterLoop indexed_leaveLoop)

lemma indexed_uses: "indexed ana \<Longrightarrow> indexed (fold (use visit) us ana)"
  by (induction us arbitrary: ana) (simp_all add: indexed_use)

lemma indexed_foldl_AddRule: "indexed ana \<Longrightarrow> indexed (foldl AddRule ana rs)"
  by (induction rs arbitrary: ana) (simp_all add: indexed_AddRule)

lemma indexed_NewAnalyzer: "indexed (NewAnalyzer file rs)"
  unfolding NewAnalyzer_def
  by (rule indexed_foldl_AddRule) (simp add: indexed_def bucket_def enterRules_def leaveRules_def)

lemma indexed_history: "indexed (history visit file rs us)"
  by (simp add: history_def indexed_uses indexed_NewAnalyzer)

lemma indexed_entry: "indexed ana \<Longrightarrow> bucket (entryRulesForNode ana) t = enterRules t (rules ana)"
  by (simp add: indexed_def)

lemma indexed_exit: "indexed ana \<Longrightarrow> bucket (exitRulesForNode ana) t = leaveRules t (rules ana)"
  by (simp add: indexed_def)

lemma enterRules_guard: "filter (\<lambda>r. OnEnter r \<noteq> None) (enterRules t rs) = enterRules t rs"
  by (induction rs) (simp_all add: enterRules_def)

lemma leaveRules_guard: "filter (\<lambda>r. OnLeave r \<noteq> None) (leaveRules t rs) = leaveRules t rs"
  by (induction rs) (simp_all add: leaveRules_def)

subsection \<open>The calls a dispatch makes and the issues they report\<close>

lemma extends_refl: "extends visit ana ana []"
  by (simp add: extends_def)

lemma extends_trans:
  "extends visit a b k \<Longrightarrow> extends visit b c l \<Longrightarrow> extends visit a c (k @ l)"
  by (simp add: extends_def)

lemma extends_since: "extends visit ana ana' k \<Longrightarrow> invokedSince ana ana' = k"
  by (simp add: extends_def invokedSince_def)

lemma extends_invoke:
  "extends visit ana (invoke visit ph f rule ana node) [Invocation ph f rule node]"
  by (simp add: extends_def invoke_def fold_perform_fields reportsOf_def)

lemma extends_enterLoop:
  "extends visit ana (enterLoop visit rs ana node)
     (map (\<lambda>r. Invocation Entering (the (OnEnter r)) r node) (filter (\<lambda>r. OnEnter r \<noteq> None) rs))"
proof (induction rs arbitrary: ana)
  case Nil
  then show ?case by (simp add: extends_refl)
next
  case (Cons rule rs)
  show ?case
  proof (cases "OnEnter rule")
    case None
    then show ?thesis using Cons.IH [of ana] by simp
  next
    case (Some f)
    have "extends visit ana (enterLoop visit rs (invoke visit Entering f rule ana node) node)
            ([Invocation Entering f rule node] @
             map (\<lambda>r. Invocation Entering (the (OnEnter r)) r node) (filter (\<lambda>r. OnEnter r \<noteq> None) rs))"
      by (rule extends_trans [OF extends_invoke Cons.IH])
    then show ?thesis using Some by simp
  qed
qed

lemma extends_leaveLoop:
  "extends visit ana (leaveLoop visit rs ana node)
     (map (\<lambda>r. Invocation Leaving (the (OnLeave r)) r node) (filter (\<lambda>r. OnLeave r \<noteq> None) rs))"
proof (induction rs arbitrary: ana)
  case Nil
  then show ?case by (simp add: extends_refl)
next
  case (Cons rule rs)
  show ?case
  proof (cases "OnLeave rule")
    case None
    then show ?thesis using Cons.IH [of ana] by simp
  next
    case (Some f)
    have "extends visit ana (leaveLoop visit rs (invoke visit Leaving f rule ana node) node)
            ([Invocation Leaving f rule node] @
             map (\<lambda>r. Invocation Leaving (the (OnLeave r)) r node) (filter (\<lambda>r. OnLeave r \<noteq> None) rs))"
      by (rule extends_trans [OF extends_invoke Cons.IH])
    then show ?thesis using Some by simp
  qed
qed

lemma extends_OnEnterNode:
  "extends visit ana (fst (OnEnterNode visit ana node))
     (map (\<lambda>r. Invocation Entering (the (OnEnter r)) r node)
        (filter (\<lambda>r. OnEnter r \<noteq> None) (bucket (entryRulesForNode ana) (Type node))))"
  unfolding OnEnterNode_def Let_def fst_conv by (rule extends_enterLoop)

lemma extends_OnLeaveNode:
  "extends visit ana (OnLeaveNode visit ana node)
     (map (\<lambda>r. Invocation Leaving (the (OnLeave r)) r node)
        (filter (\<lambda>r. OnLeave r \<noteq> None) (bucket (exitRulesForNode ana) (Type node))))"
  unfolding OnLeaveNode_def Let_def by (rule extends_leaveLoop)

lemma extends_use: "visitorCall u \<Longrightarrow> \<exists>k. extends visit ana (use visit u ana) k"
proof (cases u)
  case (UseOnEnterNode node)
  then show ?thesis using extends_OnEnterNode [of visit ana node] by auto
next
  case (UseOnLeaveNode node)
  then show ?thesis using extends_OnLeaveNode [of visit ana node] by auto
qed simp_all

lemma extends_uses:
  "list_all visitorCall us \<Longrightarrow> \<exists>k. extends visit ana (fold (use visit) us ana) k"
proof (induction us arbitrary: ana)
  case Nil
  then show ?case using extends_refl by auto
next
  case (Cons u us)
  then obtain k where k: "extends visit ana (use visit u ana) k"
    using extends_use [of u visit ana] by auto
  from Cons obtain l where "extends visit (use visit u ana) (fold (use visit) us (use visit u ana)) l"
    by fastforce
  with k show ?case using extends_trans by fastforce
qed

subsection \<open>A walk is a list of visitor calls\<close>

lemma WalkTree_uses:
  "WalkTree visit node ana = fold (use visit) (walkUses node) ana"
  "WalkNodes visit ns ana = fold (use visit) (walkUsesOfNodes ns) ana"
proof (induction visit node ana and visit ns ana rule: WalkTree_WalkNodes.induct)
  case (1 visit t cs ana)
  then show ?case by (simp add: OnEnterNode_def)
next
  case (2 visit ana)
  then show ?case by simp
next
  case (3 visit c cs ana)
  then show ?case by simp
qed

lemma walkUses_visitor:
  "list_all visitorCall (walkUses node :: 'f Use list)"
  "list_all visitorCall (walkUsesOfNodes ns :: 'f Use list)"
  by (induction node and ns rule: walkUses_walkUsesOfNodes.induct) simp_all

lemma extends_WalkTree: "\<exists>k. extends visit ana (WalkTree visit node ana) k"
  by (simp add: WalkTree_uses extends_uses walkUses_visitor)

lemma Analyze_walk:
  "Analyze visit ana = (issuesRaised (WalkTree visit (Ast (ParseResult ana)) ana),
     WalkTree visit (Ast (ParseResult ana)) ana)"
  by (simp add: Analyze_def Let_def)

subsection \<open>Issues are only appended\<close>

lemma issues_prefix_use: "prefix (issuesRaised ana) (issuesRaised (use visit u ana))"
proof (cases u)
  case (UseOnEnterNode node)
  then show ?thesis using extends_use [of u visit ana] by (auto simp: extends_def)
next
  case (UseOnLeaveNode node)
  then show ?thesis using extends_use [of u visit ana] by (auto simp: extends_def)
qed simp_all

lemma issues_prefix_uses: "prefix (issuesRaised ana) (issuesRaised (fold (use visit) us ana))"
proof (induction us arbitrary: ana)
  case Nil
  then show ?case by simp
next
  case (Cons u us)
  then show ?case using issues_prefix_use prefix_order.trans by fastforce
qed

subsection \<open>The log holds calls of defined callbacks only\<close>

lemma logSound_append:
  "logSound ana \<Longrightarrow> invoked ana' = invoked ana @ k \<Longrightarrow>
   \<forall>c \<in> set k. callbackOf c = Some (callee c) \<Longrightarrow> logSound ana'"
  by (auto simp: logSound_def)

lemma logSound_use: "logSound ana \<Longrightarrow> logSound (use visit u ana)"
proof (cases u)
  case (UseOnEnterNode node)
  assume l: "logSound ana"
  show ?thesis
    using UseOnEnterNode extends_OnEnterNode [of visit ana node]
    by (auto simp: extends_def callbackOf_def intro!: logSound_append [OF l])
next
  case (UseOnLeaveNode node)
  assume l: "logSound ana"
  show ?thesis
    using UseOnLeaveNode extends_OnLeaveNode [of visit ana node]
    by (auto simp: extends_def callbackOf_def intro!: logSound_append [OF l])
qed (simp_all add: logSound_def)

lemma logSound_uses: "logSound ana \<Longrightarrow> logSound (fold (use visit) us ana)"
  by (induction us arbitrary: ana) (simp_all add: logSound_use)

lemma logSound_history: "logSound (history visit file rs us)"
  unfolding history_def by (rule logSound_uses) (simp add: logSound_def)

subsection \<open>Nothing reads the list of all rules\<close>

lemma same_refl: "sameButRules a a"
  by (simp add: sameButRules_def)

lemma same_AddRule: "sameButRules a b \<Longrightarrow> sameButRules (AddRule a r) (AddRule b r)"
  by (simp add: sameButRules_def AddRule_entry AddRule_exit)

lemma same_AddRule_inert:
  "OnEnter r = None \<Longrightarrow> OnLeave r = None \<Longrightarrow> sameButRules a b \<Longrightarrow> sameButRules (AddRule a r) b"
  by (simp add: sameButRules_def AddRule_entry AddRule_exit)

lemma same_Report: "sameButRules a b \<Longrightarrow> sameButRules (Report a i) (Report b i)"
  by (simp add: sameButRules_def)

lemma same_perform: "sameButRules a b \<Longrightarrow> sameButRules (perform c a) (perform c b)"
  by (cases c) (simp_all add: same_AddRule same_Report)

lemma same_fold_perform: "sameButRules a b \<Longrightarrow> sameButRules (fold perform cs a) (fold perform cs b)"
  by (induction cs arbitrary: a b) (simp_all add: same_perform)

lemma same_invoke:
  assumes "sameButRules a b"
  shows "sameButRules (invoke visit ph f r a node) (invoke visit ph f r b node)"
proof -
  have "sameButRules (a\<lparr>invoked := invoked a @ [Invocation ph f r node]\<rparr>)
          (b\<lparr>invoked := invoked b @ [Invocation ph f r node]\<rparr>)"
    using assms by (simp add: sameButRules_def)
  moreover have "visit f r (Analyzer.Language a) (ParseResult a) node =
      visit f r (Analyzer.Language b) (ParseResult b) node"
    using assms by (simp add: sameButRules_def)
  ultimately show ?thesis by (simp add: invoke_def same_fold_perform)
qed

lemma same_enterLoop:
  "sameButRules a b \<Longrightarrow> sameButRules (enterLoop visit rs a node) (enterLoop visit rs b node)"
  by (induction rs arbitrary: a b) (simp_all add: same_invoke split: option.splits)

lemma same_leaveLoop:
  "sameButRules a b \<Longrightarrow> sameButRules (leaveLoop visit rs a node) (leaveLoop visit rs b node)"
  by (induction rs arbitrary: a b) (simp_all add: same_invoke split: option.splits)

lemma same_use: "sameButRules a b \<Longrightarrow> sameButRules (use visit u a) (use visit u b)"
proof (cases u)
  case (UseOnEnterNode node)
  assume s: "sameButRules a b"
  then have "entryRulesForNode a = entryRulesForNode b" by (simp add: sameButRules_def)
  with s UseOnEnterNode show ?thesis by (simp add: OnEnterNode_def same_enterLoop)
next
  case (UseOnLeaveNode node)
  assume s: "sameButRules a b"
  then have "exitRulesForNode a = exitRulesForNode b" by (simp add: sameButRules_def)
  with s UseOnLeaveNode show ?thesis by (simp add: OnLeaveNode_def same_leaveLoop)
qed (simp_all add: same_AddRule same_Report)

lemma same_uses: "sameButRules a b \<Longrightarrow> sameButRules (fold (use visit) us a) (fold (use visit) us b)"
  by (induction us arbitrary: a b) (simp_all add: same_use)

lemma same_foldl_AddRule: "sameButRules a b \<Longrightarrow> sameButRules (foldl AddRule a rs) (foldl AddRule b rs)"
  by (induction rs arbitrary: a b) (simp_all add: same_AddRule)

lemma same_NewAnalyzer_inert:
  assumes "OnEnter r = None" "OnLeave r = None"
  shows "sameButRules (NewAnalyzer file (rs1 @ r # rs2)) (NewAnalyzer file (rs1 @ rs2))"
proof -
  have "NewAnalyzer file (rs1 @ r # rs2) = foldl AddRule (AddRule (NewAnalyzer file rs1) r) rs2"
    by (simp add: NewAnalyzer_def)
  moreover have "sameButRules (AddRule (NewAnalyzer file rs1) r) (NewAnalyzer file rs1)"
    using assms by (simp add: same_AddRule_inert same_refl)
  ultimately show ?thesis by (simp add: NewAnalyzer_append same_foldl_AddRule)
qed

lemma same_Analyze: "sameButRules a b \<Longrightarrow> fst (Analyze visit a) = fst (Analyze visit b)"
proof -
  assume s: "sameButRules a b"
  then have "ParseResult a = ParseResult b" by (simp add: sameButRules_def)
  moreover have "sameButRules (fold (use visit) (walkUses (Ast (ParseResult b))) a)
      (fold (use visit) (walkUses (Ast (ParseResult b))) b)"
    using s by (rule same_uses)
  ultimately show ?thesis by (simp add: Analyze_def Let_def WalkTree_uses sameButRules_def)
qed

subsection \<open>Counting\<close>

lemma count_list_filter: "count_list (filter P xs) x = (if P x then count_list xs x else 0)"
  by (induction xs) auto

lemma count_enter_calls:
  "OnEnter R = Some f \<Longrightarrow>
   count_list (map (\<lambda>r. Invocation Entering (the (OnEnter r)) r node) rs) (Invocation Entering f R node) =
     count_list rs R"
  by (induction rs) auto


subsection \<open>Keys of the indices\<close>

lemma keyed_AddRule: "keyed ana \<Longrightarrow> keyed (AddRule ana rule)"
  by (simp add: keyed_def AddRule_entry AddRule_exit)

lemma keyed_foldl_AddRule: "keyed ana \<Longrightarrow> keyed (foldl AddRule ana rs)"
  by (induction rs arbitrary: ana) (simp_all add: keyed_AddRule)

lemma keyed_NewAnalyzer: "keyed (NewAnalyzer file rs)"
  unfolding NewAnalyzer_def by (rule keyed_foldl_AddRule) (simp add: keyed_def)

subsection \<open>The analyzer refines the specification\<close>









lemma useOf_visitor: "list_all visitorCall (map useOf vs :: 'f Use list)"
proof (induction vs)
  case Nil
  then show ?case by simp
next
  case (Cons v vs)
  obtain ph node where "v = (ph, node)" by (cases v)
  then show ?case using Cons by (cases ph) simp_all
qed

subsection \<open>The analyzer after a dispatch\<close>

lemma AddRule_issues_commute:
  "AddRule (a\<lparr>issuesRaised := x\<rparr>) r = (AddRule a r)\<lparr>issuesRaised := x\<rparr>"
  by (simp add: AddRule_def Let_def)

lemma AddRule_invoked_commute:
  "AddRule (a\<lparr>invoked := y\<rparr>) r = (AddRule a r)\<lparr>invoked := y\<rparr>"
  by (simp add: AddRule_def Let_def)

lemma foldl_AddRule_issues_commute:
  "foldl AddRule (a\<lparr>issuesRaised := x\<rparr>) rs = (foldl AddRule a rs)\<lparr>issuesRaised := x\<rparr>"
  by (induction rs arbitrary: a) (simp_all add: AddRule_issues_commute)

lemma foldl_AddRule_invoked_commute:
  "foldl AddRule (a\<lparr>invoked := y\<rparr>) rs = (foldl AddRule a rs)\<lparr>invoked := y\<rparr>"
  by (induction rs arbitrary: a) (simp_all add: AddRule_invoked_commute)

lemma fold_perform_state:
  "fold perform cs a =
     foldl AddRule (a\<lparr>issuesRaised := issuesRaised a @ concat (map reported cs)\<rparr>)
       (concat (map added cs))"
proof (induction cs arbitrary: a)
  case Nil
  then show ?case by simp
next
  case (Cons c cs)
  show ?case
  proof (cases c)
    case (CallReport issue)
    then show ?thesis by (simp add: Cons.IH Report_def)
  next
    case (CallAddRule rule)
    then show ?thesis by (simp add: Cons.IH AddRule_issues_commute)
  qed
qed

lemma update_swap:
  "a\<lparr>invoked := y, issuesRaised := x\<rparr> = a\<lparr>issuesRaised := x, invoked := y\<rparr>"
  by (cases a) simp

lemma invoke_state:
  "invoke visit ph f r a node =
     foldl AddRule
       (a\<lparr>issuesRaised :=
            issuesRaised a @
              concat (map reported (visit f r (Analyzer.Language a) (ParseResult a) node)),
          invoked := invoked a @ [Invocation ph f r node]\<rparr>)
       (concat (map added (visit f r (Analyzer.Language a) (ParseResult a) node)))"
  by (simp add: invoke_def fold_perform_state update_swap)

lemma enterLoop_state:
  "Analyzer.Language a = lang \<Longrightarrow> ParseResult a = file \<Longrightarrow>
   enterLoop visit L a node =
     foldl AddRule
       (a\<lparr>issuesRaised :=
            issuesRaised a @
              concat (map reported
                (concat (map (\<lambda>r. visit (the (OnEnter r)) r lang file node)
                   (filter (\<lambda>r. OnEnter r \<noteq> None) L)))),
          invoked :=
            invoked a @
              map (\<lambda>r. Invocation Entering (the (OnEnter r)) r node)
                (filter (\<lambda>r. OnEnter r \<noteq> None) L)\<rparr>)
       (concat (map added
          (concat (map (\<lambda>r. visit (the (OnEnter r)) r lang file node)
             (filter (\<lambda>r. OnEnter r \<noteq> None) L)))))"
proof (induction L arbitrary: a)
  case Nil
  then show ?case by simp
next
  case (Cons r L)
  show ?case
  proof (cases "OnEnter r")
    case None
    then show ?thesis using Cons by simp
  next
    case (Some f)
    define a1 where "a1 = invoke visit Entering f r a node"
    have l: "Analyzer.Language a1 = lang" "ParseResult a1 = file"
      using Cons.prems extends_invoke [of visit a Entering f r node]
      by (simp_all add: a1_def extends_def)
    have "enterLoop visit (r # L) a node = enterLoop visit L a1 node"
      using Some by (simp add: a1_def)
    also note Cons.IH [OF l]
    finally show ?thesis
      using Some Cons.prems
      by (simp add: a1_def invoke_state foldl_AddRule_fields
          foldl_AddRule_issues_commute [symmetric] foldl_AddRule_invoked_commute [symmetric]
          foldl_append [symmetric] del: foldl_append)
  qed
qed

subsection \<open>Callbacks that do not read their state\<close>








subsection \<open>Evaluating the examples\<close>

lemmas ex_defs =
  exTree_def exFile_def exRule_def exRuleBoth_def exRuleInert_def exRuleAdder_def exIssue_def
  exVisit_def

lemmas run_defs =
  history_def NewAnalyzer_def AddRule_def Report_def OnEnterNode_def OnLeaveNode_def invoke_def
  bucket_def invokedSince_def Let_def Analyze_def


section \<open>Dispatch, indexing and issue collection\<close>

text \<open>
  C1 as the code has it. Take an analyzer with any history and any node.
  \<open>OnEnterNode\<close> returns true. The bucket that the entry index holds for the type
  of the node is the list of the rules registered so far (\<open>rules\<close>, which for a
  new analyzer is the list given to \<open>NewAnalyzer\<close>) that declare that type and
  define an on-enter callback, in registration order, and every rule of it has
  an on-enter callback. The dispatch calls, for each rule of the bucket in this
  order, the rule's on-enter callback with the rule, the analyzer (of which the
  callback sees the fields \<open>Language\<close> and \<open>ParseResult\<close>) and the node, and
  performs the callback's method calls on the analyzer: the analyzer after the
  dispatch is the analyzer before it with the issues that these calls report
  appended in order, the rules that they add registered by \<open>AddRule\<close> in order,
  and the calls logged. Consequently the on-enter callback of a rule \<open>R\<close> is
  called with \<open>R\<close> at a node of the type that \<open>R\<close> declares once for each time
  \<open>R\<close> has been registered, so exactly once when \<open>R\<close> has been registered once,
  and not at all at a node of any other type.
\<close>

theorem OnEnterNode_dispatch:
  "let ana = history visit file rs us;
       bkt = bucket (entryRulesForNode ana) (Type node);
       calls = concat (map (\<lambda>rule. visit (the (OnEnter rule)) rule
                 (Analyzer.Language ana) (ParseResult ana) node) bkt);
       made = map (\<lambda>rule. Invocation Entering (the (OnEnter rule)) rule node) bkt;
       ana' = fst (OnEnterNode visit ana node)
   in snd (OnEnterNode visit ana node) = True \<and>
      bkt = enterRules (Type node) (rules ana) \<and>
      (\<forall>rule \<in> set bkt. OnEnter rule \<noteq> None) \<and>
      ana' =
        foldl AddRule
          (ana\<lparr>issuesRaised := issuesRaised ana @ concat (map reported calls),
               invoked := invoked ana @ made\<rparr>)
          (concat (map added calls)) \<and>
      issuesRaised ana' = issuesRaised ana @ concat (map reported calls) \<and>
      rules ana' = rules ana @ concat (map added calls) \<and>
      invokedSince ana ana' = made \<and>
      rules (history visit file rs []) = rs \<and>
      (OnEnter R = Some f \<longrightarrow>
         count_list (invokedSince ana ana') (Invocation Entering f R node) =
           (if Type node = NodeType R then count_list (rules ana) R else 0)) \<and>
      (OnEnter R = Some f \<and> count_list (rules ana) R = 1 \<longrightarrow>
         count_list (invokedSince ana ana') (Invocation Entering f R node) =
           (if Type node = NodeType R then 1 else 0))"
proof -
  define ana where "ana = history visit file rs us"
  define bkt where "bkt = bucket (entryRulesForNode ana) (Type node)"
  define calls where "calls = concat (map (\<lambda>rule. visit (the (OnEnter rule)) rule
                 (Analyzer.Language ana) (ParseResult ana) node) bkt)"
  define made where "made = map (\<lambda>rule. Invocation Entering (the (OnEnter rule)) rule node) bkt"
  define ana' where "ana' = fst (OnEnterNode visit ana node)"
  have idx: "bkt = enterRules (Type node) (rules ana)"
    unfolding bkt_def ana_def by (rule indexed_entry [OF indexed_history])
  have guard: "\<forall>rule \<in> set bkt. OnEnter rule \<noteq> None"
    by (simp add: idx enterRules_def)
  have all: "filter (\<lambda>r. OnEnter r \<noteq> None) bkt = bkt"
    by (simp only: idx enterRules_guard)
  have loop: "ana' = enterLoop visit bkt ana node"
    by (simp add: ana'_def OnEnterNode_def bkt_def)
  have state: "ana' =
        foldl AddRule
          (ana\<lparr>issuesRaised := issuesRaised ana @ concat (map reported calls),
               invoked := invoked ana @ made\<rparr>)
          (concat (map added calls))"
    unfolding loop calls_def made_def
    using enterLoop_state [OF refl refl, of visit bkt ana node]
    by (simp only: all)
  have issues: "issuesRaised ana' = issuesRaised ana @ concat (map reported calls)"
    by (subst state) (simp add: foldl_AddRule_fields)
  have rls: "rules ana' = rules ana @ concat (map added calls)"
    by (subst state) (simp add: foldl_AddRule_fields)
  have since: "invokedSince ana ana' = made"
    by (subst state) (simp add: invokedSince_def foldl_AddRule_fields)
  have cnt: "count_list (invokedSince ana ana') (Invocation Entering f R node) =
      (if Type node = NodeType R then count_list (rules ana) R else 0)" if "OnEnter R = Some f"
    using that by (auto simp: since made_def idx count_enter_calls enterRules_def count_list_filter)
  have fresh: "rules (history visit file rs []) = rs"
    by (simp add: history_def)
  have true: "snd (OnEnterNode visit ana node) = True"
    by (simp add: OnEnterNode_def)
  show ?thesis
    unfolding Let_def ana_def [symmetric] bkt_def [symmetric] calls_def [symmetric]
      made_def [symmetric] ana'_def [symmetric]
    using true idx guard state issues rls since fresh cnt
    by simp
qed

text \<open>
  C1 as it is written fails for a rule that is registered twice: its callback
  runs twice at one node of its type, and its issue is reported twice.
\<close>

theorem OnEnterNode_dispatch_twice:
  "OnEnter exRule = Some 0 \<and> NodeType exRule = ''X'' \<and>
   exRule \<in> set (rules (NewAnalyzer exFile [exRule, exRule])) \<and>
   count_list
     (invokedSince (NewAnalyzer exFile [exRule, exRule])
        (fst (OnEnterNode exVisit (NewAnalyzer exFile [exRule, exRule]) (SyntaxNode ''X'' []))))
     (Invocation Entering 0 exRule (SyntaxNode ''X'' [])) = 2 \<and>
   map Message (issuesRaised
     (fst (OnEnterNode exVisit (NewAnalyzer exFile [exRule, exRule]) (SyntaxNode ''X'' [])))) =
     [''X'', ''X'']"
  by (simp add: run_defs ex_defs)

theorem OnEnterNode_dispatch_witness:
  "OnEnter exRule = Some 0 \<and>
   count_list
     (rules (history exVisit exFile [exRule, exRuleBoth] [UseOnEnterNode (SyntaxNode ''X'' [])]))
     exRule = 1 \<and>
   exRule \<in> set (bucket (entryRulesForNode
     (history exVisit exFile [exRule, exRuleBoth] [UseOnEnterNode (SyntaxNode ''X'' [])])) ''X'') \<and>
   OnEnter exRule \<noteq> None \<and>
   count_list
     (invokedSince
        (history exVisit exFile [exRule, exRuleBoth] [UseOnEnterNode (SyntaxNode ''X'' [])])
        (fst (OnEnterNode exVisit
           (history exVisit exFile [exRule, exRuleBoth] [UseOnEnterNode (SyntaxNode ''X'' [])])
           (SyntaxNode ''X'' []))))
     (Invocation Entering 0 exRule (SyntaxNode ''X'' [])) = 1 \<and>
   count_list
     (invokedSince
        (history exVisit exFile [exRule, exRuleBoth] [UseOnEnterNode (SyntaxNode ''X'' [])])
        (fst (OnEnterNode exVisit
           (history exVisit exFile [exRule, exRuleBoth] [UseOnEnterNode (SyntaxNode ''X'' [])])
           (SyntaxNode ''Y'' []))))
     (Invocation Entering 0 exRule (SyntaxNode ''Y'' [])) = 0 \<and>
   map Message (issuesRaised
     (fst (OnEnterNode exVisit
        (history exVisit exFile [exRule, exRuleBoth] [UseOnEnterNode (SyntaxNode ''X'' [])])
        (SyntaxNode ''X'' [])))) = [''X'', ''X'']"
proof -
  define H where
    "H = history exVisit exFile [exRule, exRuleBoth] [UseOnEnterNode (SyntaxNode ''X'' [])]"
  have r: "rules H = [exRule, exRuleBoth]"
    by (simp add: H_def run_defs ex_defs)
  have d: "exRuleBoth \<noteq> exRule" "OnEnter exRule = Some 0" "NodeType exRule = ''X''"
    "OnEnter exRuleBoth = Some 1" "NodeType exRuleBoth = ''Y''"
    by (simp_all add: ex_defs)
  have one: "count_list (rules H) exRule = 1"
    by (simp add: r d)
  have m: "map Message (issuesRaised (fst (OnEnterNode exVisit H (SyntaxNode ''X'' [])))) =
      [''X'', ''X'']"
    by (simp add: H_def run_defs ex_defs)
  note x = OnEnterNode_dispatch [of exVisit exFile "[exRule, exRuleBoth]"
        "[UseOnEnterNode (SyntaxNode ''X'' [])]" "SyntaxNode ''X'' []" exRule 0,
        unfolded Let_def, folded H_def]
  note y = OnEnterNode_dispatch [of exVisit exFile "[exRule, exRuleBoth]"
        "[UseOnEnterNode (SyntaxNode ''X'' [])]" "SyntaxNode ''Y'' []" exRule 0,
        unfolded Let_def, folded H_def]
  from x have "bucket (entryRulesForNode H) (Type (SyntaxNode ''X'' [])) =
      enterRules (Type (SyntaxNode ''X'' [])) (rules H)"
    by blast
  then have b: "bucket (entryRulesForNode H) ''X'' = [exRule]"
    by (simp add: r d enterRules_def)
  from x d(2) one have "count_list
      (invokedSince H (fst (OnEnterNode exVisit H (SyntaxNode ''X'' []))))
      (Invocation Entering 0 exRule (SyntaxNode ''X'' [])) =
      (if Type (SyntaxNode ''X'' []) = NodeType exRule then 1 else 0)"
    by blast
  then have c1: "count_list
      (invokedSince H (fst (OnEnterNode exVisit H (SyntaxNode ''X'' []))))
      (Invocation Entering 0 exRule (SyntaxNode ''X'' [])) = 1"
    by (simp add: d)
  from y d(2) one have "count_list
      (invokedSince H (fst (OnEnterNode exVisit H (SyntaxNode ''Y'' []))))
      (Invocation Entering 0 exRule (SyntaxNode ''Y'' [])) =
      (if Type (SyntaxNode ''Y'' []) = NodeType exRule then 1 else 0)"
    by blast
  then have c0: "count_list
      (invokedSince H (fst (OnEnterNode exVisit H (SyntaxNode ''Y'' []))))
      (Invocation Entering 0 exRule (SyntaxNode ''Y'' [])) = 0"
    by (simp add: d)
  show ?thesis
    unfolding H_def [symmetric]
    using d(2) one b c1 c0 m by simp
qed

text \<open>
  C2. \<open>AddRule\<close> appends the rule to the list of all rules, to the bucket of the
  entry index for the rule's declared node type when the rule defines an on-enter
  callback, and to the bucket of the exit index for that type when it defines an
  on-exit callback; the two are decided independently and no other bucket
  changes. After \<open>NewAnalyzer file rs\<close> the entry bucket of a type holds the rules
  of \<open>rs\<close> that declare the type and define an on-enter callback, in the order of
  \<open>rs\<close>, and likewise the exit bucket; a type has a key in an index exactly when
  its bucket is not empty. \<open>NewAnalyzer\<close> on a list with one more rule is
  \<open>AddRule\<close> of that rule after \<open>NewAnalyzer\<close> on the list.
\<close>

theorem rule_indexing:
  "rules (AddRule ana rule) = rules ana @ [rule] \<and>
   bucket (entryRulesForNode (AddRule ana rule)) t =
     bucket (entryRulesForNode ana) t @
       (if NodeType rule = t \<and> OnEnter rule \<noteq> None then [rule] else []) \<and>
   bucket (exitRulesForNode (AddRule ana rule)) t =
     bucket (exitRulesForNode ana) t @
       (if NodeType rule = t \<and> OnLeave rule \<noteq> None then [rule] else []) \<and>
   rules (NewAnalyzer file rs) = rs \<and>
   bucket (entryRulesForNode (NewAnalyzer file rs)) t = enterRules t rs \<and>
   bucket (exitRulesForNode (NewAnalyzer file rs)) t = leaveRules t rs \<and>
   ((entryRulesForNode (NewAnalyzer file rs) t = None) = (enterRules t rs = [])) \<and>
   ((exitRulesForNode (NewAnalyzer file rs) t = None) = (leaveRules t rs = [])) \<and>
   Analyzer.Language (NewAnalyzer file rs) = ParseResult.Language file \<and>
   ParseResult (NewAnalyzer file rs) = file \<and>
   NewAnalyzer file (rs @ [rule]) = AddRule (NewAnalyzer file rs) rule \<and>
   NewAnalyzer file (rs @ rs') = foldl AddRule (NewAnalyzer file rs) rs'"
proof -
  have e: "bucket (entryRulesForNode (NewAnalyzer file rs)) t = enterRules t rs"
    using indexed_entry [OF indexed_NewAnalyzer [of "file" rs], of t] by simp
  have l: "bucket (exitRulesForNode (NewAnalyzer file rs)) t = leaveRules t rs"
    using indexed_exit [OF indexed_NewAnalyzer [of "file" rs], of t] by simp
  have ek: "(entryRulesForNode (NewAnalyzer file rs) t = None) = (enterRules t rs = [])"
    using keyed_NewAnalyzer [of "file" rs] e by (auto simp: keyed_def bucket_def split: option.splits)
  have lk: "(exitRulesForNode (NewAnalyzer file rs) t = None) = (leaveRules t rs = [])"
    using keyed_NewAnalyzer [of "file" rs] l by (auto simp: keyed_def bucket_def split: option.splits)
  show ?thesis
    using e l ek lk
    by (simp add: AddRule_entry_bucket AddRule_exit_bucket NewAnalyzer_append)
qed

theorem rule_indexing_witness:
  "bucket (entryRulesForNode (NewAnalyzer exFile [exRuleBoth, exRule, exRuleInert, exRuleAdder])) ''Y'' =
     [exRuleBoth, exRuleAdder] \<and>
   bucket (exitRulesForNode (NewAnalyzer exFile [exRuleBoth, exRule, exRuleInert, exRuleAdder])) ''Y'' =
     [exRuleBoth] \<and>
   bucket (entryRulesForNode (NewAnalyzer exFile [exRuleBoth, exRule, exRuleInert, exRuleAdder])) ''X'' =
     [exRule] \<and>
   exitRulesForNode (NewAnalyzer exFile [exRuleBoth, exRule, exRuleInert, exRuleAdder]) ''X'' = None"
  using
    rule_indexing [of "NewAnalyzer exFile []" exRule "''Y''" exFile
      "[exRuleBoth, exRule, exRuleInert, exRuleAdder]" "[]"]
    rule_indexing [of "NewAnalyzer exFile []" exRule "''X''" exFile
      "[exRuleBoth, exRule, exRuleInert, exRuleAdder]" "[]"]
  by (simp add: enterRules_def leaveRules_def ex_defs)

text \<open>
  C3. \<open>Report\<close> appends the issue to the issue list, whatever the list holds: an
  issue reported twice is in the list twice. The method calls of one callback
  append what they report in the order of the calls. Whatever use is made of an
  analyzer, the issue list before is a prefix of the issue list after: nothing
  is removed, changed or reordered. After any sequence of visitor calls the issue
  list is the list before followed by the issues that the calls of callbacks
  made meanwhile report, in the order of the calls. \<open>Analyze\<close> returns the issue
  list as the walk leaves it, so the list before the walk followed by the issues
  reported during the walk in the order of the reports; for a new analyzer that
  is all of it.
\<close>

theorem issues_in_report_order:
  "issuesRaised (Report ana issue) = issuesRaised ana @ [issue] \<and>
   issuesRaised (Report (Report ana issue) issue) = issuesRaised ana @ [issue, issue] \<and>
   issuesRaised (fold perform calls ana) = issuesRaised ana @ concat (map reported calls) \<and>
   prefix (issuesRaised ana) (issuesRaised (fold (use visit) us ana)) \<and>
   issuesRaised (fold (use visit) (map useOf vs) ana) =
     issuesRaised ana @
       concat (map (reportsOf visit (Analyzer.Language ana) (ParseResult ana))
                 (invokedSince ana (fold (use visit) (map useOf vs) ana))) \<and>
   fst (Analyze visit ana) = issuesRaised (snd (Analyze visit ana)) \<and>
   fst (Analyze visit ana) =
     issuesRaised ana @
       concat (map (reportsOf visit (Analyzer.Language ana) (ParseResult ana))
                 (invokedSince ana (snd (Analyze visit ana)))) \<and>
   fst (Analyze visit (NewAnalyzer file rs)) =
     concat (map (reportsOf visit (ParseResult.Language file) file)
               (invoked (snd (Analyze visit (NewAnalyzer file rs)))))"
proof -
  obtain j where j: "extends visit ana (fold (use visit) (map useOf vs) ana) j"
    using extends_uses [OF useOf_visitor] by blast
  have v: "issuesRaised (fold (use visit) (map useOf vs) ana) =
     issuesRaised ana @
       concat (map (reportsOf visit (Analyzer.Language ana) (ParseResult ana))
                 (invokedSince ana (fold (use visit) (map useOf vs) ana)))"
    using j extends_since [OF j] by (simp add: extends_def)
  obtain k where k: "extends visit ana (WalkTree visit (Ast (ParseResult ana)) ana) k"
    using extends_WalkTree by blast
  have a: "fst (Analyze visit ana) =
     issuesRaised ana @
       concat (map (reportsOf visit (Analyzer.Language ana) (ParseResult ana))
                 (invokedSince ana (snd (Analyze visit ana))))"
    using k extends_since [OF k] by (simp add: Analyze_walk extends_def)
  obtain k' where k': "extends visit (NewAnalyzer file rs)
      (WalkTree visit (Ast (ParseResult (NewAnalyzer file rs))) (NewAnalyzer file rs)) k'"
    using extends_WalkTree by blast
  have b: "fst (Analyze visit (NewAnalyzer file rs)) =
     concat (map (reportsOf visit (ParseResult.Language file) file)
               (invoked (snd (Analyze visit (NewAnalyzer file rs)))))"
    using k' by (simp add: Analyze_walk extends_def)
  have p: "prefix (issuesRaised ana) (issuesRaised (fold (use visit) us ana))"
    by (rule issues_prefix_uses)
  have f: "issuesRaised (fold perform calls ana) = issuesRaised ana @ concat (map reported calls)"
    by (simp add: fold_perform_fields)
  show ?thesis
    using v a b p f by (simp add: Analyze_walk)
qed

theorem issues_in_report_order_witness:
  "map Message (fst (Analyze exVisit (NewAnalyzer exFile [exRuleBoth, exRule]))) =
     [''X'', ''Y'', ''X'', ''Y''] \<and>
   map Message
     (concat (map (reportsOf exVisit LangPy exFile)
        (invoked (snd (Analyze exVisit (NewAnalyzer exFile [exRuleBoth, exRule])))))) =
     [''X'', ''Y'', ''X'', ''Y'']"
proof -
  have "map Message (fst (Analyze exVisit (NewAnalyzer exFile [exRuleBoth, exRule]))) =
      [''X'', ''Y'', ''X'', ''Y'']"
    by (simp add: run_defs ex_defs)
  moreover have "ParseResult.Language exFile = LangPy"
    by (simp add: exFile_def)
  ultimately show ?thesis
    using issues_in_report_order [of "NewAnalyzer exFile []" "exIssue [] exTree" "[]" exVisit "[]" "[]"
        exFile "[exRuleBoth, exRule]"]
    by simp
qed




text \<open>
  C9. Let \<open>R\<close> define neither callback. In an analyzer with any history, whatever
  rules it was constructed with and whatever was added since, \<open>R\<close> is in no
  bucket of the entry index and in no bucket of the exit index, and no call of a
  callback was ever made with \<open>R\<close>. Adding \<open>R\<close> changes nothing but the list of
  all rules, which nothing reads: \<open>Analyze\<close> returns the same issues with and
  without it, whether \<open>R\<close> is added by \<open>AddRule\<close> or stands anywhere in the list
  given to \<open>NewAnalyzer\<close>, and the walk makes the same calls of callbacks.
\<close>

theorem inert_rule:
  "OnEnter R = None \<Longrightarrow> OnLeave R = None \<Longrightarrow>
   (let ana = history visit file rs us
    in (\<forall>t. R \<notin> set (bucket (entryRulesForNode ana) t) \<and>
             R \<notin> set (bucket (exitRulesForNode ana) t)) \<and>
       (\<forall>c \<in> set (invoked ana). ruleArg c \<noteq> R)) \<and>
   sameButRules (AddRule a R) a \<and>
   fst (Analyze visit (AddRule a R)) = fst (Analyze visit a) \<and>
   issuesRaised (fold (use visit) us (AddRule a R)) = issuesRaised (fold (use visit) us a) \<and>
   fst (Analyze visit (NewAnalyzer file (rs1 @ R # rs2))) =
     fst (Analyze visit (NewAnalyzer file (rs1 @ rs2))) \<and>
   invoked (snd (Analyze visit (NewAnalyzer file (rs1 @ R # rs2)))) =
     invoked (snd (Analyze visit (NewAnalyzer file (rs1 @ rs2))))"
proof -
  assume inert: "OnEnter R = None" "OnLeave R = None"
  define ana where "ana = history visit file rs us"
  have idx: "indexed ana" unfolding ana_def by (rule indexed_history)
  have b: "\<forall>t. R \<notin> set (bucket (entryRulesForNode ana) t) \<and> R \<notin> set (bucket (exitRulesForNode ana) t)"
    using inert by (simp add: indexed_entry [OF idx] indexed_exit [OF idx] enterRules_def leaveRules_def)
  have ls: "logSound ana" unfolding ana_def by (rule logSound_history)
  have c: "\<forall>c \<in> set (invoked ana). ruleArg c \<noteq> R"
  proof
    fix c assume "c \<in> set (invoked ana)"
    then have some: "callbackOf c = Some (callee c)"
      using ls by (simp add: logSound_def)
    show "ruleArg c \<noteq> R"
    proof
      assume "ruleArg c = R"
      then have "callbackOf c = None"
        using inert by (cases "phase c") (simp_all add: callbackOf_def)
      with some show False by simp
    qed
  qed
  have s1: "sameButRules (AddRule a R) a"
    using inert by (simp add: same_AddRule_inert same_refl)
  have s2: "sameButRules (NewAnalyzer file (rs1 @ R # rs2)) (NewAnalyzer file (rs1 @ rs2))"
    using inert by (rule same_NewAnalyzer_inert)
  have i: "issuesRaised (fold (use visit) us (AddRule a R)) = issuesRaised (fold (use visit) us a)"
    using same_uses [OF s1, of visit us] by (simp add: sameButRules_def)
  have w: "invoked (snd (Analyze visit (NewAnalyzer file (rs1 @ R # rs2)))) =
     invoked (snd (Analyze visit (NewAnalyzer file (rs1 @ rs2))))"
    using same_uses [OF s2, of visit "walkUses (Ast file)"]
    by (simp add: Analyze_walk WalkTree_uses sameButRules_def)
  show ?thesis
    using b c s1 i w same_Analyze [OF s1] same_Analyze [OF s2]
    unfolding Let_def ana_def [symmetric] by simp
qed

theorem inert_rule_witness:
  "OnEnter exRuleInert = None \<and> OnLeave exRuleInert = None \<and>
   exRuleInert \<notin> set (bucket (entryRulesForNode
     (history exVisit exFile [exRule, exRuleInert] [UseOnEnterNode (SyntaxNode ''X'' [])])) ''X'') \<and>
   Invocation Entering 0 exRule (SyntaxNode ''X'' []) \<in> set (invoked
     (history exVisit exFile [exRule, exRuleInert] [UseOnEnterNode (SyntaxNode ''X'' [])])) \<and>
   ruleArg (Invocation Entering 0 exRule (SyntaxNode ''X'' [])) \<noteq> exRuleInert \<and>
   fst (Analyze exVisit (NewAnalyzer exFile ([exRule] @ exRuleInert # [exRuleBoth]))) =
     fst (Analyze exVisit (NewAnalyzer exFile ([exRule] @ [exRuleBoth]))) \<and>
   map Message (fst (Analyze exVisit (NewAnalyzer exFile ([exRule] @ exRuleInert # [exRuleBoth])))) =
     [''X'', ''Y'', ''X'', ''Y'']"
proof -
  have i: "OnEnter exRuleInert = None" "OnLeave exRuleInert = None"
    by (simp_all add: ex_defs)
  have m: "Invocation Entering 0 exRule (SyntaxNode ''X'' []) \<in> set (invoked
     (history exVisit exFile [exRule, exRuleInert] [UseOnEnterNode (SyntaxNode ''X'' [])]))"
    by (simp add: run_defs ex_defs)
  have a: "map Message (fst (Analyze exVisit (NewAnalyzer exFile [exRule, exRuleBoth]))) =
      [''X'', ''Y'', ''X'', ''Y'']"
    by (simp add: run_defs ex_defs)
  show ?thesis
    using i m a
      inert_rule [OF i, of exVisit exFile "[exRule, exRuleInert]"
        "[UseOnEnterNode (SyntaxNode ''X'' [])]" "NewAnalyzer exFile []" "[exRule]" "[exRuleBoth]"]
    by (auto simp: Let_def)
qed

text \<open>
  C10. In an analyzer with any history (constructed by \<open>NewAnalyzer\<close>, rules
  added by \<open>AddRule\<close> from the host or from callbacks, issues reported, nodes
  visited) every rule in a bucket of the entry index has an on-enter callback
  and every rule in a bucket of the exit index has an on-exit callback. So on
  such an analyzer \<open>OnEnterNode\<close> and \<open>OnLeaveNode\<close> make as many calls of
  callbacks as the bucket of the node's type has rules: no iteration of either
  loop takes the branch that skips a rule without a callback, and the branch
  that calls is taken with a callback only.
\<close>

theorem guards_unreachable:
  "let ana = history visit file rs us
   in (\<forall>t. \<forall>rule \<in> set (bucket (entryRulesForNode ana) t). OnEnter rule \<noteq> None) \<and>
      (\<forall>t. \<forall>rule \<in> set (bucket (exitRulesForNode ana) t). OnLeave rule \<noteq> None) \<and>
      length (invokedSince ana (fst (OnEnterNode visit ana node))) =
        length (bucket (entryRulesForNode ana) (Type node)) \<and>
      length (invokedSince ana (OnLeaveNode visit ana node)) =
        length (bucket (exitRulesForNode ana) (Type node))"
proof -
  define ana where "ana = history visit file rs us"
  have idx: "indexed ana" unfolding ana_def by (rule indexed_history)
  have e: "\<forall>t. \<forall>rule \<in> set (bucket (entryRulesForNode ana) t). OnEnter rule \<noteq> None"
    by (simp add: indexed_entry [OF idx] enterRules_def)
  have l: "\<forall>t. \<forall>rule \<in> set (bucket (exitRulesForNode ana) t). OnLeave rule \<noteq> None"
    by (simp add: indexed_exit [OF idx] leaveRules_def)
  have ne: "length (invokedSince ana (fst (OnEnterNode visit ana node))) =
      length (bucket (entryRulesForNode ana) (Type node))"
    by (simp add: extends_since [OF extends_OnEnterNode] indexed_entry [OF idx] enterRules_guard
        del: not_None_eq)
  have nl: "length (invokedSince ana (OnLeaveNode visit ana node)) =
      length (bucket (exitRulesForNode ana) (Type node))"
    by (simp add: extends_since [OF extends_OnLeaveNode] indexed_exit [OF idx] leaveRules_guard
        del: not_None_eq)
  show ?thesis
    using e l ne nl unfolding Let_def ana_def [symmetric] by simp
qed

theorem guards_unreachable_witness:
  "rules (history exVisit exFile [exRuleAdder, exRuleInert, exRuleBoth]
       [UseOnEnterNode (SyntaxNode ''Y'' [])]) =
     [exRuleAdder, exRuleInert, exRuleBoth, exRule] \<and>
   exRule \<in> set (bucket (entryRulesForNode
     (history exVisit exFile [exRuleAdder, exRuleInert, exRuleBoth]
        [UseOnEnterNode (SyntaxNode ''Y'' [])])) ''X'') \<and>
   OnEnter exRule \<noteq> None \<and>
   exRuleBoth \<in> set (bucket (exitRulesForNode
     (history exVisit exFile [exRuleAdder, exRuleInert, exRuleBoth]
        [UseOnEnterNode (SyntaxNode ''Y'' [])])) ''Y'') \<and>
   OnLeave exRuleBoth \<noteq> None \<and>
   length (invokedSince
     (history exVisit exFile [exRuleAdder, exRuleInert, exRuleBoth]
        [UseOnEnterNode (SyntaxNode ''Y'' [])])
     (fst (OnEnterNode exVisit
        (history exVisit exFile [exRuleAdder, exRuleInert, exRuleBoth]
           [UseOnEnterNode (SyntaxNode ''Y'' [])])
        (SyntaxNode ''X'' [])))) = 1 \<and>
   length (invokedSince
     (history exVisit exFile [exRuleAdder, exRuleInert, exRuleBoth]
        [UseOnEnterNode (SyntaxNode ''Y'' [])])
     (OnLeaveNode exVisit
        (history exVisit exFile [exRuleAdder, exRuleInert, exRuleBoth]
           [UseOnEnterNode (SyntaxNode ''Y'' [])])
        (SyntaxNode ''Y'' []))) = 1"
proof -
  have r: "rules (history exVisit exFile [exRuleAdder, exRuleInert, exRuleBoth]
       [UseOnEnterNode (SyntaxNode ''Y'' [])]) =
      [exRuleAdder, exRuleInert, exRuleBoth, exRule]"
    by (simp add: run_defs ex_defs)
  have b: "bucket (entryRulesForNode
      (history exVisit exFile [exRuleAdder, exRuleInert, exRuleBoth]
         [UseOnEnterNode (SyntaxNode ''Y'' [])])) ''X'' = [exRule]"
    by (simp add: run_defs ex_defs)
  have c: "bucket (exitRulesForNode
      (history exVisit exFile [exRuleAdder, exRuleInert, exRuleBoth]
         [UseOnEnterNode (SyntaxNode ''Y'' [])])) ''Y'' = [exRuleBoth]"
    by (simp add: run_defs ex_defs)
  have d: "OnEnter exRule = Some 0" "OnLeave exRuleBoth = Some 2"
    by (simp_all add: ex_defs)
  show ?thesis
    using r b c d
      guards_unreachable [of exVisit exFile "[exRuleAdder, exRuleInert, exRuleBoth]"
        "[UseOnEnterNode (SyntaxNode ''Y'' [])]" "SyntaxNode ''X'' []"]
      guards_unreachable [of exVisit exFile "[exRuleAdder, exRuleInert, exRuleBoth]"
        "[UseOnEnterNode (SyntaxNode ''Y'' [])]" "SyntaxNode ''Y'' []"]
    by (simp add: Let_def)
qed

end
